theory Spec2Isabelle
  imports Main
begin

section \<open>Python strings\<close>

text \<open>
  The script \<^verbatim>\<open>scripts/check-python-versions.py\<close> works on Python \<^verbatim>\<open>str\<close> values and on
  \<^verbatim>\<open>None\<close>. A \<^verbatim>\<open>str\<close> is modelled as a \<^typ>\<open>string\<close> in which every \<^typ>\<open>char\<close> stands for
  one code point below 256; a value that may be \<^verbatim>\<open>None\<close> is a \<^typ>\<open>string option\<close>.
\<close>

definition LF :: char where
  "LF = CHR 0x0A"

text \<open>\<^verbatim>\<open>str.isspace\<close> on the code points below 256.\<close>

definition py_isspace :: "char \<Rightarrow> bool" where
  "py_isspace c =
     (let n = (of_char c :: nat)
      in (9 \<le> n \<and> n \<le> 13) \<or> (28 \<le> n \<and> n \<le> 32) \<or> n = 133 \<or> n = 160)"

text \<open>\<^verbatim>\<open>str.strip()\<close>: white space is removed at both ends.\<close>

definition py_strip :: "string \<Rightarrow> string" where
  "py_strip s = rev (dropWhile py_isspace (rev (dropWhile py_isspace s)))"

text \<open>\<^verbatim>\<open>str.lower()\<close>, one code point at a time, on the code points below 256.\<close>

definition lower_char :: "char \<Rightarrow> char" where
  "lower_char c =
     (let n = (of_char c :: nat)
      in if (65 \<le> n \<and> n \<le> 90) \<or> (192 \<le> n \<and> n \<le> 222 \<and> n \<noteq> 215)
         then char_of (n + 32) else c)"

definition py_lower :: "string \<Rightarrow> string" where
  "py_lower s = map lower_char s"

text \<open>\<^verbatim>\<open>s.startswith(p)\<close>.\<close>

definition startswith :: "string \<Rightarrow> string \<Rightarrow> bool" where
  "startswith p s = (take (length p) s = p)"

text \<open>\<^verbatim>\<open>p in s\<close> for strings: \<open>p\<close> occurs in \<open>s\<close> as a contiguous piece.\<close>

fun py_in :: "string \<Rightarrow> string \<Rightarrow> bool" where
  "py_in p [] = (p = [])"
| "py_in p (c # t) = (startswith p (c # t) \<or> py_in p t)"

text \<open>
  \<^verbatim>\<open>s.split(sep)\<close> for a separator of one character: the pieces between the separators,
  always at least one piece.
\<close>

fun py_split :: "char \<Rightarrow> string \<Rightarrow> string list" where
  "py_split sep [] = [[]]"
| "py_split sep (c # t) =
     (if c = sep then [] # py_split sep t
      else (case py_split sep t of
              p # ps \<Rightarrow> (c # p) # ps
            | [] \<Rightarrow> [[c]]))"

text \<open>An f-string field \<^verbatim>\<open>{x}\<close> whose value is a \<^verbatim>\<open>str\<close> or \<^verbatim>\<open>None\<close>.\<close>

definition fmt :: "string option \<Rightarrow> string" where
  "fmt x = (case x of None \<Rightarrow> ''None'' | Some s \<Rightarrow> s)"


section \<open>The version normalizer\<close>

text \<open>
  \<^verbatim>\<open>
  def normalize_version(v):
      '''Strip build metadata for comparison'''
      if v is None:
          return None
      # Remove -dev, dev, and anything after
      import re
      v = re.sub(r'[-.]?dev.*$', '', v, flags=re.IGNORECASE)
      v = re.sub(r'-.*$', '', v)
      return v
  \<close>
  The two patterns are matched as Python's \<^verbatim>\<open>re\<close> matches them: \<^verbatim>\<open>.\<close> is any character
  but the line feed, and \<^verbatim>\<open>$\<close> (no \<^verbatim>\<open>MULTILINE\<close>) holds at the end of the string and just
  before a line feed that is the last character of the string. A matcher takes the text at
  the position tried and returns the text left after the match, or \<open>None\<close> when the
  pattern does not match at that position.
\<close>

definition is_sep :: "char \<Rightarrow> bool" where
  "is_sep c = (c = CHR ''-'' \<or> c = CHR ''.'')"

text \<open>The literal \<^verbatim>\<open>dev\<close> under \<^verbatim>\<open>IGNORECASE\<close>, at the head of the text.\<close>

definition idev :: "string \<Rightarrow> bool" where
  "idev s = (map lower_char (take 3 s) = ''dev'')"

text \<open>
  \<^verbatim>\<open>.*$\<close>: the greedy \<^verbatim>\<open>.*\<close> runs up to the first line feed or the end; \<^verbatim>\<open>$\<close> must hold
  there, and giving characters back cannot help, since \<^verbatim>\<open>$\<close> holds before no character
  other than a final line feed.
\<close>

definition dollar_tail :: "string \<Rightarrow> string option" where
  "dollar_tail s =
     (let r = dropWhile (\<lambda>c. c \<noteq> LF) s
      in if r = [] \<or> r = [LF] then Some r else None)"

text \<open>\<^verbatim>\<open>dev.*$\<close> at the head of the text.\<close>

definition match_dev_body :: "string \<Rightarrow> string option" where
  "match_dev_body s = (if idev s then dollar_tail (drop 3 s) else None)"

text \<open>
  \<^verbatim>\<open>[-.]?dev.*$\<close> at the head of the text: the optional separator is taken first when
  it is there, and given back when the rest does not match after it.
\<close>

definition match_dev :: "string \<Rightarrow> string option" where
  "match_dev s =
     (case s of
        [] \<Rightarrow> match_dev_body s
      | c # t \<Rightarrow>
          if is_sep c
          then (case match_dev_body t of Some r \<Rightarrow> Some r | None \<Rightarrow> match_dev_body s)
          else match_dev_body s)"

text \<open>\<^verbatim>\<open>-.*$\<close> at the head of the text.\<close>

definition match_hyphen :: "string \<Rightarrow> string option" where
  "match_hyphen s =
     (case s of
        [] \<Rightarrow> None
      | c # t \<Rightarrow> if c = CHR ''-'' then dollar_tail t else None)"

text \<open>
  \<^verbatim>\<open>re.sub(pattern, '', v)\<close>: the text is scanned from the left; where the pattern
  matches, the match is dropped and the scan goes on behind it, elsewhere the character is
  kept. Neither pattern matches the empty text.
\<close>

function sub_dev :: "string \<Rightarrow> string" where
  "sub_dev [] = []"
| "sub_dev (c # t) =
     (case match_dev (c # t) of Some r \<Rightarrow> sub_dev r | None \<Rightarrow> c # sub_dev t)"
  by pat_completeness auto
termination
proof (relation "measure length")
  show "wf (measure length)" by simp
next
  fix c :: char and t r :: string
  assume m: "match_dev (c # t) = Some r"
  have tail: "length r \<le> length u" if "dollar_tail u = Some r" for u
  proof -
    from that have "r = dropWhile (\<lambda>c. c \<noteq> LF) u"
      by (auto simp: dollar_tail_def Let_def split: if_splits)
    then show ?thesis by (simp add: length_dropWhile_le)
  qed
  have body: "length r \<le> length u" if "match_dev_body u = Some r" for u
  proof -
    from that have "dollar_tail (drop 3 u) = Some r"
      by (auto simp: match_dev_body_def split: if_splits)
    then have "length r \<le> length (drop 3 u)" by (rule tail)
    then show ?thesis by simp
  qed
  have body1: "length r < length (c # t)" if "match_dev_body (c # t) = Some r"
  proof -
    from that have "dollar_tail (drop 3 (c # t)) = Some r"
      by (auto simp: match_dev_body_def split: if_splits)
    then have "length r \<le> length (drop 3 (c # t))" by (rule tail)
    then show ?thesis by simp
  qed
  from m have "match_dev_body t = Some r \<or> match_dev_body (c # t) = Some r"
    by (auto simp: match_dev_def split: if_splits option.splits)
  then have "length r < length (c # t)"
  proof
    assume "match_dev_body t = Some r"
    then have "length r \<le> length t" by (rule body)
    then show ?thesis by simp
  next
    assume "match_dev_body (c # t) = Some r"
    then show ?thesis by (rule body1)
  qed
  then show "(r, c # t) \<in> measure length" by simp
next
  fix c :: char and t :: string
  show "(t, c # t) \<in> measure length" by simp
qed

function sub_hyphen :: "string \<Rightarrow> string" where
  "sub_hyphen [] = []"
| "sub_hyphen (c # t) =
     (case match_hyphen (c # t) of Some r \<Rightarrow> sub_hyphen r | None \<Rightarrow> c # sub_hyphen t)"
  by pat_completeness auto
termination
proof (relation "measure length")
  show "wf (measure length)" by simp
next
  fix c :: char and t r :: string
  assume "match_hyphen (c # t) = Some r"
  then have "r = dropWhile (\<lambda>c. c \<noteq> LF) t"
    by (auto simp: match_hyphen_def dollar_tail_def Let_def split: if_splits)
  then have "length r \<le> length t" by (simp add: length_dropWhile_le)
  then show "(r, c # t) \<in> measure length" by simp
next
  fix c :: char and t :: string
  show "(t, c # t) \<in> measure length" by simp
qed

definition normalize_version :: "string option \<Rightarrow> string option" where
  "normalize_version v =
     (case v of
        None \<Rightarrow> None
      | Some s \<Rightarrow> Some (sub_hyphen (sub_dev s)))"

text \<open>
  The normalizer as its description words it, for comparison with the code: the string is
  cut where the literal \<^verbatim>\<open>dev\<close> first occurs (in any case, together with one separator
  \<^verbatim>\<open>-\<close> or \<^verbatim>\<open>.\<close> before it), and what is left is cut at its first hyphen.
\<close>

fun cut_at_dev :: "string \<Rightarrow> string" where
  "cut_at_dev [] = []"
| "cut_at_dev (c # t) =
     (if (is_sep c \<and> idev t) \<or> idev (c # t) then [] else c # cut_at_dev t)"

definition cut_at_hyphen :: "string \<Rightarrow> string" where
  "cut_at_hyphen s = takeWhile (\<lambda>c. c \<noteq> CHR ''-'') s"

definition normalize_spec :: "string \<Rightarrow> string" where
  "normalize_spec v = cut_at_hyphen (cut_at_dev v)"


section \<open>The system version probe\<close>

text \<open>
  \<^verbatim>\<open>
  def get_system_version(cmd):
      try:
          result = subprocess.run(cmd, capture_output=True, text=True, check=True)
          return result.stdout.strip()
      except:
          return None
  \<close>
  What the host does with a command is a parameter of the model: running it either raises
  (the binary is missing, the output cannot be decoded, the run is interrupted, ...) or
  completes with a return code and the captured standard output. A command that never
  completes is outside the model.
\<close>

datatype py_exception =
    FileNotFoundError
  | CalledProcessError int
  | TypeError
  | AttributeError
  | OtherException string

record completed_process =
  returncode :: int
  stdout :: string

type_synonym host = "string list \<Rightarrow> py_exception + completed_process"

text \<open>\<^verbatim>\<open>subprocess.run(cmd, capture_output=True, text=True, check=True)\<close>: with
  \<^verbatim>\<open>check=True\<close> a return code other than zero raises \<^verbatim>\<open>CalledProcessError\<close>.\<close>

definition subprocess_run :: "host \<Rightarrow> string list \<Rightarrow> py_exception + completed_process" where
  "subprocess_run os cmd =
     (case os cmd of
        Inl e \<Rightarrow> Inl e
      | Inr p \<Rightarrow> if returncode p \<noteq> 0 then Inl (CalledProcessError (returncode p)) else Inr p)"

text \<open>The result is \<open>Inl e\<close> when the exception \<open>e\<close> leaves the function, \<open>Inr\<close> of the
  returned value otherwise. The bare \<^verbatim>\<open>except:\<close> takes every exception.\<close>

definition get_system_version :: "host \<Rightarrow> string list \<Rightarrow> py_exception + string option" where
  "get_system_version os cmd =
     (case subprocess_run os cmd of
        Inr result \<Rightarrow> Inr (Some (py_strip (stdout result)))
      | Inl e \<Rightarrow> Inr None)"


text \<open>A host for the examples: one command completes, one fails, every other is missing.\<close>

definition demo_host :: host where
  "demo_host cmd =
     (if cmd = [''gdal-config'', ''--version'']
        then Inr \<lparr>returncode = 0, stdout = ''3.8.0'' @ [LF]\<rparr>
      else if cmd = [''pkg-config'', ''--modversion'', ''proj'']
        then Inr \<lparr>returncode = 1, stdout = ''''\<rparr>
      else Inl FileNotFoundError)"


section \<open>Parsing the report of geopandas\<close>

text \<open>
  \<^verbatim>\<open>
  gp_gdal = gp_proj = gp_geos = None
  for line in gp_info.split('\n'):
      if line.strip().startswith('GDAL'):
          parts = line.split(':')
          if len(parts) >= 2:
              gp_gdal = parts[1].strip()
      elif line.strip().startswith('PROJ'):
          parts = line.split(':')
          if len(parts) >= 2:
              gp_proj = parts[1].strip()
      elif line.strip().startswith('GEOS') and 'lib' not in line.lower():
          parts = line.split(':')
          if len(parts) >= 2:
              gp_geos = parts[1].strip()
  \<close>
  The three variables are the state of the loop; one step of the loop is \<open>gp_line\<close>.
\<close>

record gp_vars =
  gp_gdal :: "string option"
  gp_proj :: "string option"
  gp_geos :: "string option"

definition gp_line :: "gp_vars \<Rightarrow> string \<Rightarrow> gp_vars" where
  "gp_line st line =
     (if startswith ''GDAL'' (py_strip line) then
        (let parts = py_split (CHR '':'') line
         in if length parts \<ge> 2 then st\<lparr>gp_gdal := Some (py_strip (parts ! 1))\<rparr> else st)
      else if startswith ''PROJ'' (py_strip line) then
        (let parts = py_split (CHR '':'') line
         in if length parts \<ge> 2 then st\<lparr>gp_proj := Some (py_strip (parts ! 1))\<rparr> else st)
      else if startswith ''GEOS'' (py_strip line) \<and> \<not> py_in ''lib'' (py_lower line) then
        (let parts = py_split (CHR '':'') line
         in if length parts \<ge> 2 then st\<lparr>gp_geos := Some (py_strip (parts ! 1))\<rparr> else st)
      else st)"

definition parse_show_versions :: "string \<Rightarrow> gp_vars" where
  "parse_show_versions gp_info =
     foldl gp_line \<lparr>gp_gdal = None, gp_proj = None, gp_geos = None\<rparr> (py_split LF gp_info)"

text \<open>
  Two readings of the value of a line, for comparison with the code: the rest of the line
  behind its first colon, and the text between the first colon and the next one.
\<close>

definition after_first_colon :: "string \<Rightarrow> string" where
  "after_first_colon line = drop 1 (dropWhile (\<lambda>c. c \<noteq> CHR '':'') line)"

definition between_colons :: "string \<Rightarrow> string" where
  "between_colons line = takeWhile (\<lambda>c. c \<noteq> CHR '':'') (after_first_colon line)"


section \<open>The alignment check\<close>

text \<open>
  A Python \<^verbatim>\<open>dict\<close> keeps its keys in the order of insertion, and the loops of the script
  run over the items in that order: a \<^verbatim>\<open>dict\<close> is an association list, one pair for each
  key.
  \<^verbatim>\<open>
  def check_alignment(lib_name, system_ver, pkg_versions):
      actual_versions = {
          pkg: v for pkg, v in pkg_versions.items()
          if v is not None and not v.startswith('via ')
      }
      if not actual_versions:
          print(f"{lib_name}: No packages report version directly")
          return True
      system_norm = normalize_version(system_ver)
      mismatches = []
      for pkg, v in actual_versions.items():
          pkg_norm = normalize_version(v)
          if pkg_norm != system_norm:
              mismatches.append((pkg, v, pkg_norm))
      if not mismatches:
          print(f"{lib_name}: OK (all packages match system {system_ver})")
          return True
      else:
          print(f"{lib_name}: MISMATCH!")
          print(f"  System: {system_ver} (normalized: {system_norm})")
          for pkg, v, v_norm in mismatches:
              print(f"  {pkg}: {v} (normalized: {v_norm}) DIFFERS")
          return False
  \<close>
\<close>

type_synonym pkg_versions = "(string \<times> string option) list"

text \<open>The comprehension that builds \<^verbatim>\<open>actual_versions\<close>.\<close>

fun actual_versions :: "pkg_versions \<Rightarrow> (string \<times> string) list" where
  "actual_versions [] = []"
| "actual_versions ((pkg, v) # rest) =
     (case v of
        None \<Rightarrow> actual_versions rest
      | Some s \<Rightarrow>
          if \<not> startswith ''via '' s then (pkg, s) # actual_versions rest
          else actual_versions rest)"

text \<open>The loop that fills \<^verbatim>\<open>mismatches\<close>.\<close>

fun collect_mismatches ::
  "string option \<Rightarrow> (string \<times> string) list \<Rightarrow> (string \<times> string \<times> string option) list" where
  "collect_mismatches system_norm [] = []"
| "collect_mismatches system_norm ((pkg, v) # rest) =
     (let pkg_norm = normalize_version (Some v)
      in if pkg_norm \<noteq> system_norm
         then (pkg, v, pkg_norm) # collect_mismatches system_norm rest
         else collect_mismatches system_norm rest)"

text \<open>The list \<^verbatim>\<open>mismatches\<close> of a call; the call that returns early never builds it, and
  has nothing to list.\<close>

definition mismatches :: "string option \<Rightarrow> pkg_versions \<Rightarrow> (string \<times> string \<times> string option) list" where
  "mismatches system_ver pkg_versions =
     collect_mismatches (normalize_version system_ver) (actual_versions pkg_versions)"

definition differs_line :: "string \<times> string \<times> string option \<Rightarrow> string" where
  "differs_line m =
     (case m of (pkg, v, v_norm) \<Rightarrow>
        ''  '' @ pkg @ '': '' @ v @ '' (normalized: '' @ fmt v_norm @ '') DIFFERS'')"

text \<open>The result of a call: the lines it prints and the value it returns.\<close>

definition check_alignment :: "string \<Rightarrow> string option \<Rightarrow> pkg_versions \<Rightarrow> string list \<times> bool" where
  "check_alignment lib_name system_ver pkg_versions =
     (let actual = actual_versions pkg_versions
      in if actual = [] then
           ([lib_name @ '': No packages report version directly''], True)
         else
           (let system_norm = normalize_version system_ver;
                ms = collect_mismatches system_norm actual
            in if ms = [] then
                 ([lib_name @ '': OK (all packages match system '' @ fmt system_ver @ '')''], True)
               else
                 ([lib_name @ '': MISMATCH!'',
                   ''  System: '' @ fmt system_ver @ '' (normalized: '' @ fmt system_norm @ '')'']
                  @ map differs_line ms, False)))"


section \<open>The end of the script: the table, the checks and the exit status\<close>

text \<open>
  \<^verbatim>\<open>
  for pkg, versions in results.items():
      gdal_v = versions['GDAL'] or '-'
      proj_v = versions['PROJ'] or '-'
      geos_v = versions['GEOS'] or '-'
      print(f"{pkg:<15} {gdal_v:<20} {proj_v:<12} {geos_v:<12}")
  ...
  gdal_versions = {pkg: v['GDAL'] for pkg, v in results.items()}
  proj_versions = {pkg: v['PROJ'] for pkg, v in results.items()}
  geos_versions = {pkg: v['GEOS'] for pkg, v in results.items()}
  gdal_ok = check_alignment('GDAL', system_gdal, gdal_versions)
  proj_ok = check_alignment('PROJ', system_proj, proj_versions)
  geos_ok = check_alignment('GEOS', system_geos, geos_versions)
  print()
  if gdal_ok and proj_ok and geos_ok:
      print(...)
      sys.exit(0)
  else:
      print(...)
      sys.exit(1)
  \<close>
  The entry of a package in \<^verbatim>\<open>results\<close> has the three keys \<^verbatim>\<open>'GDAL'\<close>, \<^verbatim>\<open>'PROJ'\<close> and
  \<^verbatim>\<open>'GEOS'\<close>. A value is what the accessor of the package returned, and that is not always
  a \<^verbatim>\<open>str\<close>: for pyogrio the script stores
  \<^verbatim>\<open>pyogrio.get_gdal_version_string() if hasattr(pyogrio, 'get_gdal_version_string') else pyogrio.__gdal_version__\<close>,
  and \<^verbatim>\<open>__gdal_version__\<close> is a tuple of integers such as \<^verbatim>\<open>(3, 8, 0)\<close>. A value is
  therefore a \<^verbatim>\<open>str\<close>, \<^verbatim>\<open>None\<close> or a tuple of integers.
\<close>

datatype pyobj = Str string | NoneObj | Tuple "int list"

record versions =
  GDAL :: pyobj
  PROJ :: pyobj
  GEOS :: pyobj

type_synonym results = "(string \<times> versions) list"

text \<open>The truth value of an object: \<^verbatim>\<open>None\<close>, the empty string and the empty tuple are false.\<close>

definition truthy :: "pyobj \<Rightarrow> bool" where
  "truthy x = (case x of Str s \<Rightarrow> s \<noteq> [] | NoneObj \<Rightarrow> False | Tuple t \<Rightarrow> t \<noteq> [])"

text \<open>\<^verbatim>\<open>x or '-'\<close>.\<close>

definition or_dash :: "pyobj \<Rightarrow> pyobj" where
  "or_dash x = (if truthy x then x else Str ''-'')"

text \<open>
  The f-string field \<^verbatim>\<open>{x:<w}\<close>: a \<^verbatim>\<open>str\<close> is filled with spaces on the right up to the
  width \<open>w\<close> and never cut; \<^verbatim>\<open>None\<close> and a tuple take no such format and raise
  \<^verbatim>\<open>TypeError\<close>.
\<close>

definition ljust :: "nat \<Rightarrow> string \<Rightarrow> string" where
  "ljust w s = s @ replicate (w - length s) (CHR '' '')"

definition format_left :: "nat \<Rightarrow> pyobj \<Rightarrow> py_exception + string" where
  "format_left w x =
     (case x of
        Str s \<Rightarrow> Inr (ljust w s)
      | NoneObj \<Rightarrow> Inl TypeError
      | Tuple t \<Rightarrow> Inl TypeError)"

text \<open>The body of the loop that prints the table: the line printed, or the exception raised
  while the line is built, its fields from left to right.\<close>

definition table_row :: "string \<Rightarrow> versions \<Rightarrow> py_exception + string" where
  "table_row pkg vs =
     (let gdal_v = or_dash (GDAL vs);
          proj_v = or_dash (PROJ vs);
          geos_v = or_dash (GEOS vs)
      in case format_left 20 gdal_v of
           Inl e \<Rightarrow> Inl e
         | Inr g \<Rightarrow>
             (case format_left 12 proj_v of
                Inl e \<Rightarrow> Inl e
              | Inr p \<Rightarrow>
                  (case format_left 12 geos_v of
                     Inl e \<Rightarrow> Inl e
                   | Inr q \<Rightarrow> Inr (ljust 15 pkg @ '' '' @ g @ '' '' @ p @ '' '' @ q))))"

text \<open>The loop: the lines printed, and the exception that ended the loop, if any.\<close>

fun print_rows :: "results \<Rightarrow> string list \<times> py_exception option" where
  "print_rows [] = ([], None)"
| "print_rows ((pkg, vs) # rest) =
     (case table_row pkg vs of
        Inl e \<Rightarrow> ([], Some e)
      | Inr line \<Rightarrow> (case print_rows rest of (ls, r) \<Rightarrow> (line # ls, r)))"

definition gdal_versions :: "results \<Rightarrow> (string \<times> pyobj) list" where
  "gdal_versions rs = map (\<lambda>(pkg, v). (pkg, GDAL v)) rs"

definition proj_versions :: "results \<Rightarrow> (string \<times> pyobj) list" where
  "proj_versions rs = map (\<lambda>(pkg, v). (pkg, PROJ v)) rs"

definition geos_versions :: "results \<Rightarrow> (string \<times> pyobj) list" where
  "geos_versions rs = map (\<lambda>(pkg, v). (pkg, GEOS v)) rs"

text \<open>
  \<^verbatim>\<open>check_alignment\<close> on a \<^verbatim>\<open>dict\<close> of such values. Its first statement evaluates
  \<^verbatim>\<open>v is not None and not v.startswith('via ')\<close> on every item in turn; a tuple is not
  \<^verbatim>\<open>None\<close> and has no \<^verbatim>\<open>startswith\<close>, so the call raises \<^verbatim>\<open>AttributeError\<close> there, before
  it prints anything. When no value is a tuple, the \<^verbatim>\<open>dict\<close> is one of \<^verbatim>\<open>str\<close> or \<^verbatim>\<open>None\<close>
  values and the call is \<open>check_alignment\<close> above.
\<close>

fun str_values :: "(string \<times> pyobj) list \<Rightarrow> py_exception + pkg_versions" where
  "str_values [] = Inr []"
| "str_values ((pkg, v) # rest) =
     (case v of
        Tuple t \<Rightarrow> Inl AttributeError
      | NoneObj \<Rightarrow>
          (case str_values rest of Inl e \<Rightarrow> Inl e | Inr d \<Rightarrow> Inr ((pkg, None) # d))
      | Str s \<Rightarrow>
          (case str_values rest of Inl e \<Rightarrow> Inl e | Inr d \<Rightarrow> Inr ((pkg, Some s) # d)))"

definition check_alignment_obj ::
  "string \<Rightarrow> string option \<Rightarrow> (string \<times> pyobj) list \<Rightarrow> py_exception + string list \<times> bool" where
  "check_alignment_obj lib_name system_ver pkg_versions =
     (case str_values pkg_versions of
        Inl e \<Rightarrow> Inl e
      | Inr d \<Rightarrow> Inr (check_alignment lib_name system_ver d))"

text \<open>
  The end of the script, from the table on, as a function of the three system versions
  and of \<^verbatim>\<open>results\<close>. Nothing catches an exception raised here: the interpreter prints
  the traceback and the process ends with status 1. Otherwise the status is the argument
  of \<^verbatim>\<open>sys.exit\<close>. The three checks all run before the test of their results. The lines
  printed are those of the table rows and of the checks; the headings and the summary
  are fixed text and left out. How \<^verbatim>\<open>results\<close> is filled (which packages can be imported)
  is the environment of the script.
\<close>

record finished =
  printed :: "string list"
  uncaught :: "py_exception option"
  exit_status :: int

definition script_end ::
  "string option \<Rightarrow> string option \<Rightarrow> string option \<Rightarrow> results \<Rightarrow> finished" where
  "script_end system_gdal system_proj system_geos rs =
     (case print_rows rs of
        (rows, Some e) \<Rightarrow> \<lparr>printed = rows, uncaught = Some e, exit_status = 1\<rparr>
      | (rows, None) \<Rightarrow>
          (case check_alignment_obj ''GDAL'' system_gdal (gdal_versions rs) of
             Inl e \<Rightarrow> \<lparr>printed = rows, uncaught = Some e, exit_status = 1\<rparr>
           | Inr (gdal_out, gdal_ok) \<Rightarrow>
               (case check_alignment_obj ''PROJ'' system_proj (proj_versions rs) of
                  Inl e \<Rightarrow> \<lparr>printed = rows @ gdal_out, uncaught = Some e, exit_status = 1\<rparr>
                | Inr (proj_out, proj_ok) \<Rightarrow>
                    (case check_alignment_obj ''GEOS'' system_geos (geos_versions rs) of
                       Inl e \<Rightarrow>
                         \<lparr>printed = rows @ gdal_out @ proj_out, uncaught = Some e,
                          exit_status = 1\<rparr>
                     | Inr (geos_out, geos_ok) \<Rightarrow>
                         \<lparr>printed = rows @ gdal_out @ proj_out @ geos_out, uncaught = None,
                          exit_status = (if gdal_ok \<and> proj_ok \<and> geos_ok then 0 else 1)\<rparr>))))"


section \<open>Properties of the normalizer\<close>

text \<open>
  Claim C8. Normalizing an absent version yields absence: \<^verbatim>\<open>normalize_version(None)\<close> is
  \<^verbatim>\<open>None\<close>.
\<close>

theorem normalize_version_None: "normalize_version None = None"
  by (simp add: normalize_version_def)

lemma dollar_tail_no_LF: "LF \<notin> set s \<Longrightarrow> dollar_tail s = Some []"
proof -
  assume "LF \<notin> set s"
  then have "dropWhile (\<lambda>c. c \<noteq> LF) s = []" by auto
  then show ?thesis by (simp add: dollar_tail_def)
qed

lemma match_dev_body_no_LF:
  assumes "LF \<notin> set s"
  shows "match_dev_body s = (if idev s then Some [] else None)"
proof -
  from assms have "LF \<notin> set (drop 3 s)" by (auto dest: in_set_dropD)
  then show ?thesis by (simp add: match_dev_body_def dollar_tail_no_LF)
qed

lemma match_dev_no_LF:
  assumes "LF \<notin> set (c # t)"
  shows "match_dev (c # t) = (if (is_sep c \<and> idev t) \<or> idev (c # t) then Some [] else None)"
proof -
  from assms have t: "LF \<notin> set t" by simp
  show ?thesis
    by (simp add: match_dev_def match_dev_body_no_LF [OF assms] match_dev_body_no_LF [OF t])
qed

lemma sub_dev_no_LF: "LF \<notin> set s \<Longrightarrow> sub_dev s = cut_at_dev s"
proof (induction s)
  case Nil
  then show ?case by simp
next
  case (Cons c t)
  from Cons.prems have t: "LF \<notin> set t" by simp
  show ?case
    by (simp add: match_dev_no_LF [OF Cons.prems] Cons.IH [OF t] del: set_simps)
qed

lemma match_hyphen_no_LF:
  assumes "LF \<notin> set (c # t)"
  shows "match_hyphen (c # t) = (if c = CHR ''-'' then Some [] else None)"
proof -
  from assms have "LF \<notin> set t" by simp
  then show ?thesis by (simp add: match_hyphen_def dollar_tail_no_LF)
qed

lemma sub_hyphen_no_LF: "LF \<notin> set s \<Longrightarrow> sub_hyphen s = cut_at_hyphen s"
proof (induction s)
  case Nil
  then show ?case by (simp add: cut_at_hyphen_def)
next
  case (Cons c t)
  from Cons.prems have t: "LF \<notin> set t" by simp
  have "cut_at_hyphen (c # t) = (if c = CHR ''-'' then [] else c # cut_at_hyphen t)"
    by (simp add: cut_at_hyphen_def)
  then show ?case
    by (simp add: match_hyphen_no_LF [OF Cons.prems] Cons.IH [OF t] del: set_simps)
qed

lemma cut_at_dev_prefix: "\<exists>r. s = cut_at_dev s @ r"
  by (induction s) auto

lemma set_cut_at_dev: "set (cut_at_dev s) \<subseteq> set s"
proof -
  obtain r where "s = cut_at_dev s @ r" using cut_at_dev_prefix by blast
  then have "set s = set (cut_at_dev s) \<union> set r" by (metis set_append)
  then show ?thesis by blast
qed

lemma set_cut_at_hyphen: "set (cut_at_hyphen s) \<subseteq> set s"
  by (auto simp: cut_at_hyphen_def dest: set_takeWhileD)

lemma normalize_version_no_LF:
  assumes "LF \<notin> set v"
  shows "normalize_version (Some v) = Some (normalize_spec v)"
proof -
  from assms set_cut_at_dev [of v] have "LF \<notin> set (cut_at_dev v)" by blast
  then have "sub_hyphen (cut_at_dev v) = cut_at_hyphen (cut_at_dev v)"
    by (rule sub_hyphen_no_LF)
  with assms show ?thesis
    by (simp add: normalize_version_def normalize_spec_def sub_dev_no_LF)
qed

lemma idev_append: "idev p \<Longrightarrow> idev (p @ r)"
proof -
  assume a: "idev p"
  then have "length (map lower_char (take 3 p)) = length ''dev''"
    unfolding idev_def by (rule arg_cong)
  then have "3 \<le> length p" by simp
  then have "take 3 (p @ r) = take 3 p" by simp
  with a show ?thesis by (simp add: idev_def)
qed

lemma cut_at_dev_prefix_fixed:
  "cut_at_dev (p @ r) = p @ r \<Longrightarrow> cut_at_dev p = p"
proof (induction p)
  case Nil
  then show ?case by simp
next
  case (Cons c p)
  from Cons.prems have no: "\<not> ((is_sep c \<and> idev (p @ r)) \<or> idev (c # p @ r))"
    by (auto split: if_splits)
  with Cons.prems have "cut_at_dev (p @ r) = p @ r" by simp
  then have ih: "cut_at_dev p = p" by (rule Cons.IH)
  from no idev_append [of p r] idev_append [of "c # p" r]
  have "\<not> ((is_sep c \<and> idev p) \<or> idev (c # p))" by auto
  with ih show ?case by simp
qed

lemma cut_at_dev_idem: "cut_at_dev (cut_at_dev s) = cut_at_dev s"
proof (induction s)
  case Nil
  then show ?case by simp
next
  case (Cons c t)
  show ?case
  proof (cases "(is_sep c \<and> idev t) \<or> idev (c # t)")
    case True
    then show ?thesis by simp
  next
    case False
    obtain r where r: "t = cut_at_dev t @ r" using cut_at_dev_prefix by blast
    have "idev t" if "idev (cut_at_dev t)"
      using idev_append [OF that, of r] r by simp
    moreover have "idev (c # t)" if "idev (c # cut_at_dev t)"
      using idev_append [OF that, of r] r by simp
    ultimately have "\<not> ((is_sep c \<and> idev (cut_at_dev t)) \<or> idev (c # cut_at_dev t))"
      using False by blast
    with False Cons.IH show ?thesis by simp
  qed
qed

lemma normalize_spec_idem: "normalize_spec (normalize_spec v) = normalize_spec v"
proof -
  let ?u = "cut_at_dev v"
  let ?p = "takeWhile (\<lambda>c. c \<noteq> CHR ''-'') ?u"
  have "?u = ?p @ dropWhile (\<lambda>c. c \<noteq> CHR ''-'') ?u" by simp
  moreover have "cut_at_dev ?u = ?u" by (rule cut_at_dev_idem)
  ultimately have "cut_at_dev (?p @ dropWhile (\<lambda>c. c \<noteq> CHR ''-'') ?u)
                     = ?p @ dropWhile (\<lambda>c. c \<noteq> CHR ''-'') ?u"
    by simp
  then have "cut_at_dev ?p = ?p" by (rule cut_at_dev_prefix_fixed)
  then show ?thesis by (simp add: normalize_spec_def cut_at_hyphen_def)
qed

text \<open>
  On a string without a line feed the code does what its comment and its description say:
  it is the described normalizer, and normalizing twice is normalizing once.
\<close>

lemma normalize_version_examples:
  "normalize_version (Some ''3.8.0-dev3'') = Some ''3.8.0''
   \<and> normalize_version (Some ''3.8.0'') = Some ''3.8.0''
   \<and> normalize_version (Some ''3.8.0-1-abc'') = Some ''3.8.0''
   \<and> normalize_version (Some ''3.9.0.DEV2-rc1'') = Some ''3.9.0''"
  by code_simp

lemma normalize_version_twice_no_LF:
  assumes "LF \<notin> set v"
  shows "normalize_version (normalize_version (Some v)) = normalize_version (Some v)"
proof -
  from assms have n: "normalize_version (Some v) = Some (normalize_spec v)"
    by (rule normalize_version_no_LF)
  have "set (normalize_spec v) \<subseteq> set v"
    unfolding normalize_spec_def using set_cut_at_hyphen set_cut_at_dev by blast
  with assms have "LF \<notin> set (normalize_spec v)" by blast
  then have "normalize_version (Some (normalize_spec v)) = Some (normalize_spec (normalize_spec v))"
    by (rule normalize_version_no_LF)
  with n show ?thesis by (simp add: normalize_spec_idem)
qed

text \<open>
  Claim C3. For every version string, normalization removes the \<^verbatim>\<open>dev\<close> marker (in any
  case, with one separator before it) together with everything after it, then everything
  from the first remaining hyphen on; the comment in the code says the same (``Remove
  -dev, dev, and anything after''). The code misses this on a string with a line feed
  behind the marker, such as the two lines \<^verbatim>\<open>3.8.0-dev\<close> and \<^verbatim>\<open>x\<close>, which the probe can return:
  \<^verbatim>\<open>.\<close> does not pass the line feed and \<^verbatim>\<open>$\<close> does not hold before it, neither pattern
  matches, and the string comes back whole, where the description gives \<^verbatim>\<open>3.8.0\<close>.
\<close>

theorem normalize_version_keeps_marker_before_line_feed:
  "normalize_version (Some (''3.8.0-dev'' @ [LF] @ ''x'')) = Some (''3.8.0-dev'' @ [LF] @ ''x'')
   \<and> normalize_spec (''3.8.0-dev'' @ [LF] @ ''x'') = ''3.8.0''"
  by code_simp

text \<open>
  Claim C4. Normalization is idempotent: normalizing a normalized string changes nothing.
  The code misses this by the same defect, when a line feed stands between two markers:
  the first pass removes the second marker only and leaves the line feed last, and the
  second pass, for which \<^verbatim>\<open>$\<close> now holds before that line feed, removes the first marker.
\<close>

theorem normalize_version_twice_differs:
  "normalize_version (Some (''3.8.0dev'' @ [LF] @ ''dev'')) = Some (''3.8.0dev'' @ [LF])
   \<and> normalize_version (normalize_version (Some (''3.8.0dev'' @ [LF] @ ''dev'')))
       = Some (''3.8.0'' @ [LF])"
  by code_simp


section \<open>Properties of the alignment check\<close>

lemma actual_versions_iff:
  "(pkg, s) \<in> set (actual_versions pv) \<longleftrightarrow> (pkg, Some s) \<in> set pv \<and> \<not> startswith ''via '' s"
  by (induction pv rule: actual_versions.induct) (auto split: option.splits)

lemma collect_mismatches_iff:
  "(pkg, v, n) \<in> set (collect_mismatches sn av) \<longleftrightarrow>
     (pkg, v) \<in> set av \<and> n = normalize_version (Some v) \<and> n \<noteq> sn"
  by (induction sn av rule: collect_mismatches.induct) (auto simp: Let_def)

lemma mismatches_iff:
  "(pkg, raw, n) \<in> set (mismatches sys pv) \<longleftrightarrow>
     (pkg, Some raw) \<in> set pv \<and> \<not> startswith ''via '' raw \<and>
     n = normalize_version (Some raw) \<and> n \<noteq> normalize_version sys"
  by (simp add: mismatches_def collect_mismatches_iff actual_versions_iff)

lemma fst_actual_versions: "fst ` set (actual_versions pv) \<subseteq> fst ` set pv"
  by (induction pv rule: actual_versions.induct) (auto split: option.splits)

lemma distinct_actual_versions:
  "distinct (map fst pv) \<Longrightarrow> distinct (map fst (actual_versions pv))"
proof (induction pv rule: actual_versions.induct)
  case 1
  then show ?case by simp
next
  case (2 pkg v rest)
  have "pkg \<notin> fst ` set (actual_versions rest)"
    using "2.prems" fst_actual_versions [of rest] by auto
  with 2 show ?case by (auto split: option.splits)
qed

lemma fst_collect_mismatches: "fst ` set (collect_mismatches sn av) \<subseteq> fst ` set av"
  by (induction sn av rule: collect_mismatches.induct) (auto simp: Let_def)

lemma distinct_collect_mismatches:
  "distinct (map fst av) \<Longrightarrow> distinct (map fst (collect_mismatches sn av))"
proof (induction sn av rule: collect_mismatches.induct)
  case (1 sn)
  then show ?case by simp
next
  case (2 sn pkg v rest)
  have "pkg \<notin> fst ` set (collect_mismatches sn rest)"
    using "2.prems" fst_collect_mismatches [of sn rest] by auto
  with 2 show ?case by (auto simp: Let_def)
qed

lemma distinct_mismatches:
  "distinct (map fst pv) \<Longrightarrow> distinct (map fst (mismatches sys pv))"
  by (simp add: mismatches_def distinct_collect_mismatches distinct_actual_versions)

lemma check_alignment_snd: "snd (check_alignment lib sys pv) \<longleftrightarrow> mismatches sys pv = []"
  by (simp add: check_alignment_def mismatches_def Let_def)

lemma check_alignment_fail_lines:
  "mismatches sys pv \<noteq> [] \<Longrightarrow>
   fst (check_alignment lib sys pv) =
     [lib @ '': MISMATCH!'',
      ''  System: '' @ fmt sys @ '' (normalized: '' @ fmt (normalize_version sys) @ '')'']
     @ map differs_line (mismatches sys pv)"
  by (auto simp: check_alignment_def mismatches_def Let_def)

lemma mismatches_empty_iff:
  "mismatches sys pv = [] \<longleftrightarrow>
     (\<forall>pkg s. (pkg, Some s) \<in> set pv \<and> \<not> startswith ''via '' s
        \<longrightarrow> normalize_version (Some s) = normalize_version sys)"
proof
  assume e: "mismatches sys pv = []"
  show "\<forall>pkg s. (pkg, Some s) \<in> set pv \<and> \<not> startswith ''via '' s
        \<longrightarrow> normalize_version (Some s) = normalize_version sys"
  proof (intro allI impI)
    fix pkg s
    assume a: "(pkg, Some s) \<in> set pv \<and> \<not> startswith ''via '' s"
    show "normalize_version (Some s) = normalize_version sys"
    proof (rule ccontr)
      assume "normalize_version (Some s) \<noteq> normalize_version sys"
      with a have "(pkg, s, normalize_version (Some s)) \<in> set (mismatches sys pv)"
        by (simp add: mismatches_iff)
      with e show False by simp
    qed
  qed
next
  assume a: "\<forall>pkg s. (pkg, Some s) \<in> set pv \<and> \<not> startswith ''via '' s
        \<longrightarrow> normalize_version (Some s) = normalize_version sys"
  show "mismatches sys pv = []"
  proof (rule ccontr)
    assume "mismatches sys pv \<noteq> []"
    then obtain m where "m \<in> set (mismatches sys pv)"
      by (cases "mismatches sys pv") auto
    moreover obtain pkg raw n where "m = (pkg, raw, n)" by (cases m) auto
    ultimately have "(pkg, raw, n) \<in> set (mismatches sys pv)" by simp
    then show False using a by (auto simp: mismatches_iff)
  qed
qed

text \<open>
  Claim C1. A package reports a literal version when its value is neither \<^verbatim>\<open>None\<close> nor a
  string that starts with \<^verbatim>\<open>via \<close>. If at least one such package has a normalized version
  other than the normalized system version, the check returns \<^verbatim>\<open>False\<close> and prints the list
  \<^verbatim>\<open>mismatches\<close>; that list holds exactly the differing packages, each with its raw and its
  normalized version, and each once when the keys are those of a \<^verbatim>\<open>dict\<close>. The check
  returns \<^verbatim>\<open>True\<close> with no mismatch exactly when the normalized version of every such
  package equals the normalized system version.
\<close>

theorem check_alignment_mismatch_list:
  "((\<exists>pkg s. (pkg, Some s) \<in> set pv \<and> \<not> startswith ''via '' s \<and>
             normalize_version (Some s) \<noteq> normalize_version sys)
      \<longrightarrow> \<not> snd (check_alignment lib sys pv) \<and>
          fst (check_alignment lib sys pv) =
            [lib @ '': MISMATCH!'',
             ''  System: '' @ fmt sys @ '' (normalized: '' @ fmt (normalize_version sys) @ '')'']
            @ map differs_line (mismatches sys pv))
   \<and> (\<forall>pkg raw n. (pkg, raw, n) \<in> set (mismatches sys pv) \<longleftrightarrow>
          (pkg, Some raw) \<in> set pv \<and> \<not> startswith ''via '' raw \<and>
          n = normalize_version (Some raw) \<and> n \<noteq> normalize_version sys)
   \<and> (distinct (map fst pv) \<longrightarrow> distinct (map fst (mismatches sys pv)))
   \<and> (snd (check_alignment lib sys pv) \<and> mismatches sys pv = [] \<longleftrightarrow>
        (\<forall>pkg s. (pkg, Some s) \<in> set pv \<and> \<not> startswith ''via '' s
           \<longrightarrow> normalize_version (Some s) = normalize_version sys))"
proof (intro conjI impI allI)
  assume "\<exists>pkg s. (pkg, Some s) \<in> set pv \<and> \<not> startswith ''via '' s \<and>
             normalize_version (Some s) \<noteq> normalize_version sys"
  then have ne: "mismatches sys pv \<noteq> []"
    by (auto simp: mismatches_empty_iff)
  then show "\<not> snd (check_alignment lib sys pv)"
    by (simp add: check_alignment_snd)
  from ne show "fst (check_alignment lib sys pv) =
            [lib @ '': MISMATCH!'',
             ''  System: '' @ fmt sys @ '' (normalized: '' @ fmt (normalize_version sys) @ '')'']
            @ map differs_line (mismatches sys pv)"
    by (rule check_alignment_fail_lines)
next
  fix pkg raw n
  show "(pkg, raw, n) \<in> set (mismatches sys pv) \<longleftrightarrow>
          (pkg, Some raw) \<in> set pv \<and> \<not> startswith ''via '' raw \<and>
          n = normalize_version (Some raw) \<and> n \<noteq> normalize_version sys"
    by (rule mismatches_iff)
next
  assume "distinct (map fst pv)"
  then show "distinct (map fst (mismatches sys pv))" by (rule distinct_mismatches)
next
  show "snd (check_alignment lib sys pv) \<and> mismatches sys pv = [] \<longleftrightarrow>
        (\<forall>pkg s. (pkg, Some s) \<in> set pv \<and> \<not> startswith ''via '' s
           \<longrightarrow> normalize_version (Some s) = normalize_version sys)"
    using mismatches_empty_iff [of sys pv] by (simp add: check_alignment_snd)
qed

theorem check_alignment_mismatch_list_witness:
  "(\<exists>pkg s. (pkg, Some s) \<in> set [(''rasterio'', Some ''9.2.1''), (''pyproj'', Some ''9.3.0-dev''),
                                    (''rioxarray'', Some ''via rasterio''), (''shapely'', None)]
       \<and> \<not> startswith ''via '' s
       \<and> normalize_version (Some s) \<noteq> normalize_version (Some ''9.3.0''))
   \<and> \<not> snd (check_alignment ''PROJ'' (Some ''9.3.0'')
         [(''rasterio'', Some ''9.2.1''), (''pyproj'', Some ''9.3.0-dev''),
          (''rioxarray'', Some ''via rasterio''), (''shapely'', None)])
   \<and> mismatches (Some ''9.3.0'')
         [(''rasterio'', Some ''9.2.1''), (''pyproj'', Some ''9.3.0-dev''),
          (''rioxarray'', Some ''via rasterio''), (''shapely'', None)]
       = [(''rasterio'', ''9.2.1'', Some ''9.2.1'')]"
proof -
  let ?pv = "[(''rasterio'', Some ''9.2.1''), (''pyproj'', Some ''9.3.0-dev''),
              (''rioxarray'', Some ''via rasterio''), (''shapely'', None)]"
  have "(''rasterio'', Some ''9.2.1'') \<in> set ?pv \<and> \<not> startswith ''via '' ''9.2.1''
        \<and> normalize_version (Some ''9.2.1'') \<noteq> normalize_version (Some ''9.3.0'')"
    by code_simp
  then have ex: "\<exists>pkg s. (pkg, Some s) \<in> set ?pv \<and> \<not> startswith ''via '' s
       \<and> normalize_version (Some s) \<noteq> normalize_version (Some ''9.3.0'')"
    by blast
  have ms: "mismatches (Some ''9.3.0'') ?pv = [(''rasterio'', ''9.2.1'', Some ''9.2.1'')]"
    by code_simp
  from ex check_alignment_mismatch_list [of ?pv "Some ''9.3.0''" "''PROJ''"]
  have "\<not> snd (check_alignment ''PROJ'' (Some ''9.3.0'') ?pv)" by blast
  with ex ms show ?thesis by blast
qed

lemma actual_versions_empty_iff:
  "actual_versions pv = [] \<longleftrightarrow> \<not> (\<exists>pkg s. (pkg, Some s) \<in> set pv \<and> \<not> startswith ''via '' s)"
proof
  assume "actual_versions pv = []"
  then have "\<And>pkg s. (pkg, s) \<notin> set (actual_versions pv)" by simp
  then show "\<not> (\<exists>pkg s. (pkg, Some s) \<in> set pv \<and> \<not> startswith ''via '' s)"
    by (simp add: actual_versions_iff)
next
  assume a: "\<not> (\<exists>pkg s. (pkg, Some s) \<in> set pv \<and> \<not> startswith ''via '' s)"
  show "actual_versions pv = []"
  proof (cases "actual_versions pv")
    case Nil
    then show ?thesis .
  next
    case (Cons e es)
    obtain pkg s where "e = (pkg, s)" by (cases e)
    with Cons have "(pkg, s) \<in> set (actual_versions pv)" by simp
    with a show ?thesis by (auto simp: actual_versions_iff)
  qed
qed

text \<open>
  Claim C5. When no package reports a literal version, the check prints that no package
  reports the version directly and returns \<^verbatim>\<open>True\<close>, whatever the system version is.
\<close>

theorem check_alignment_no_data:
  assumes "\<not> (\<exists>pkg s. (pkg, Some s) \<in> set pv \<and> \<not> startswith ''via '' s)"
  shows "check_alignment lib sys pv = ([lib @ '': No packages report version directly''], True)"
proof -
  from assms have "actual_versions pv = []" by (simp add: actual_versions_empty_iff)
  then show ?thesis by (simp add: check_alignment_def)
qed

theorem check_alignment_no_data_witness:
  "\<not> (\<exists>pkg s. (pkg, Some s) \<in> set [(''rioxarray'', Some ''via rasterio''), (''shapely'', None)]
        \<and> \<not> startswith ''via '' s)
   \<and> check_alignment ''GDAL'' (Some ''3.8.0'') [(''rioxarray'', Some ''via rasterio''), (''shapely'', None)]
       = ([''GDAL: No packages report version directly''], True)
   \<and> check_alignment ''GDAL'' None [] = ([''GDAL: No packages report version directly''], True)"
proof -
  have h: "\<not> (\<exists>pkg s. (pkg, Some s) \<in> set [(''rioxarray'', Some ''via rasterio''), (''shapely'', None)]
        \<and> \<not> startswith ''via '' s)"
    by (simp add: startswith_def)
  have h0: "\<not> (\<exists>pkg s. (pkg, Some s) \<in> set ([] :: pkg_versions) \<and> \<not> startswith ''via '' s)"
    by simp
  show ?thesis
    using h check_alignment_no_data [OF h, of "''GDAL''" "Some ''3.8.0''"]
      check_alignment_no_data [OF h0, of "''GDAL''" None]
    by simp
qed

lemma collect_mismatches_None:
  "collect_mismatches None av = map (\<lambda>(p, r). (p, r, normalize_version (Some r))) av"
  by (induction av) (auto simp: normalize_version_def)

text \<open>
  Claim C9. When the system version is \<^verbatim>\<open>None\<close> and at least one package reports a
  literal version, the check returns \<^verbatim>\<open>False\<close> and prints the mismatch heading, the
  system line with \<^verbatim>\<open>None\<close> twice, and one line for every package that reports a literal
  version: the list of mismatches is the whole list of literal versions, in its order,
  each with its normalized form, since \<^verbatim>\<open>None\<close> differs from every normalized string.
\<close>

theorem check_alignment_system_absent:
  assumes "(pkg, Some s) \<in> set pv" and "\<not> startswith ''via '' s"
  shows "\<not> snd (check_alignment lib None pv)
         \<and> check_alignment lib None pv =
             ([lib @ '': MISMATCH!'', ''  System: None (normalized: None)'']
              @ map differs_line (mismatches None pv), False)
         \<and> mismatches None pv =
             map (\<lambda>(p, r). (p, r, normalize_version (Some r))) (actual_versions pv)
         \<and> (\<forall>p r. (p, Some r) \<in> set pv \<and> \<not> startswith ''via '' r
               \<longrightarrow> (p, r, normalize_version (Some r)) \<in> set (mismatches None pv)
                   \<and> differs_line (p, r, normalize_version (Some r))
                        \<in> set (fst (check_alignment lib None pv)))"
proof -
  have "normalize_version (Some r) \<noteq> normalize_version None" for r
    by (simp add: normalize_version_def)
  then have all: "(p, r, normalize_version (Some r)) \<in> set (mismatches None pv)"
    if "(p, Some r) \<in> set pv" and "\<not> startswith ''via '' r" for p r
    using that by (simp add: mismatches_iff)
  from assms have "(pkg, s, normalize_version (Some s)) \<in> set (mismatches None pv)"
    by (rule all)
  then have ne: "mismatches None pv \<noteq> []" by auto
  then have ret: "\<not> snd (check_alignment lib None pv)"
    by (simp add: check_alignment_snd)
  have "fst (check_alignment lib None pv) =
          [lib @ '': MISMATCH!'',
           ''  System: '' @ fmt None @ '' (normalized: '' @ fmt (normalize_version None) @ '')'']
          @ map differs_line (mismatches None pv)"
    using ne by (rule check_alignment_fail_lines)
  then have out: "fst (check_alignment lib None pv) =
          [lib @ '': MISMATCH!'', ''  System: None (normalized: None)'']
          @ map differs_line (mismatches None pv)"
    by (simp add: fmt_def normalize_version_def)
  have whole: "check_alignment lib None pv =
             ([lib @ '': MISMATCH!'', ''  System: None (normalized: None)'']
              @ map differs_line (mismatches None pv), False)"
    using out ret by (cases "check_alignment lib None pv") simp
  have ms: "mismatches None pv =
             map (\<lambda>(p, r). (p, r, normalize_version (Some r))) (actual_versions pv)"
    by (simp add: mismatches_def normalize_version_def collect_mismatches_None)
  have lines: "differs_line (p, r, normalize_version (Some r))
                  \<in> set (fst (check_alignment lib None pv))"
    if "(p, Some r) \<in> set pv" and "\<not> startswith ''via '' r" for p r
  proof -
    from that have "(p, r, normalize_version (Some r)) \<in> set (mismatches None pv)"
      by (rule all)
    then have "differs_line (p, r, normalize_version (Some r))
                 \<in> differs_line ` set (mismatches None pv)"
      by (rule imageI)
    then have "differs_line (p, r, normalize_version (Some r))
                 \<in> set (map differs_line (mismatches None pv))"
      by (simp only: set_map)
    then show ?thesis
      unfolding out by (simp only: set_append Un_iff simp_thms)
  qed
  show ?thesis
  proof (intro conjI allI impI)
    show "\<not> snd (check_alignment lib None pv)" by (rule ret)
    show "check_alignment lib None pv =
             ([lib @ '': MISMATCH!'', ''  System: None (normalized: None)'']
              @ map differs_line (mismatches None pv), False)"
      by (rule whole)
    show "mismatches None pv =
             map (\<lambda>(p, r). (p, r, normalize_version (Some r))) (actual_versions pv)"
      by (rule ms)
  next
    fix p r
    assume a: "(p, Some r) \<in> set pv \<and> \<not> startswith ''via '' r"
    then have a1: "(p, Some r) \<in> set pv" and a2: "\<not> startswith ''via '' r"
      by (rule conjunct1, rule conjunct2)
    from a1 a2 show "(p, r, normalize_version (Some r)) \<in> set (mismatches None pv)"
      by (rule all)
    from a1 a2 show "differs_line (p, r, normalize_version (Some r))
                        \<in> set (fst (check_alignment lib None pv))"
      by (rule lines)
  qed
qed

theorem check_alignment_system_absent_witness:
  "(''pyproj'', Some ''9.3.0'') \<in> set [(''pyproj'', Some ''9.3.0''), (''odc-geo'', Some ''via pyproj'')]
   \<and> \<not> startswith ''via '' ''9.3.0''
   \<and> check_alignment ''PROJ'' None [(''pyproj'', Some ''9.3.0''), (''odc-geo'', Some ''via pyproj'')]
       = ([''PROJ: MISMATCH!'', ''  System: None (normalized: None)'',
           ''  pyproj: 9.3.0 (normalized: 9.3.0) DIFFERS''], False)
   \<and> mismatches None [(''pyproj'', Some ''9.3.0''), (''odc-geo'', Some ''via pyproj'')]
       = [(''pyproj'', ''9.3.0'', Some ''9.3.0'')]"
proof -
  let ?pv = "[(''pyproj'', Some ''9.3.0''), (''odc-geo'', Some ''via pyproj'')]"
  have h1: "(''pyproj'', Some ''9.3.0'') \<in> set ?pv" by simp
  have h2: "\<not> startswith ''via '' ''9.3.0''" by (simp add: startswith_def)
  have av: "actual_versions ?pv = [(''pyproj'', ''9.3.0'')]" by code_simp
  have nv: "normalize_version (Some ''9.3.0'') = Some ''9.3.0''" by code_simp
  note t = check_alignment_system_absent [OF h1 h2, of "''PROJ''"]
  from t have t2: "check_alignment ''PROJ'' None ?pv =
             ([''PROJ'' @ '': MISMATCH!'', ''  System: None (normalized: None)'']
              @ map differs_line (mismatches None ?pv), False)"
    by (elim conjE)
  from t have t3: "mismatches None ?pv =
             map (\<lambda>(p, r). (p, r, normalize_version (Some r))) (actual_versions ?pv)"
    by (elim conjE)
  have ms: "mismatches None ?pv = [(''pyproj'', ''9.3.0'', Some ''9.3.0'')]"
    unfolding t3 av by (simp add: nv)
  have dl: "differs_line (''pyproj'', ''9.3.0'', Some ''9.3.0'')
              = ''  pyproj: 9.3.0 (normalized: 9.3.0) DIFFERS''"
    by (simp add: differs_line_def fmt_def)
  have ca: "check_alignment ''PROJ'' None ?pv
       = ([''PROJ: MISMATCH!'', ''  System: None (normalized: None)'',
           ''  pyproj: 9.3.0 (normalized: 9.3.0) DIFFERS''], False)"
    unfolding t2 ms by (simp add: dl)
  from h1 h2 ca ms show ?thesis by (intro conjI)
qed

lemma actual_versions_skip:
  assumes "distinct (map fst pv)" and "(pkg, v) \<in> set pv"
    and "v = None \<or> (\<exists>s. v = Some s \<and> startswith ''via '' s)"
  shows "actual_versions (filter (\<lambda>e. fst e \<noteq> pkg) pv) = actual_versions pv"
  using assms
proof (induction pv rule: actual_versions.induct)
  case 1
  then show ?case by simp
next
  case (2 q w rest)
  show ?case
  proof (cases "q = pkg")
    case True
    with "2.prems" have w: "w = v" by (auto simp: image_iff)
    from True "2.prems" have "pkg \<notin> fst ` set rest" by auto
    then have "filter (\<lambda>e. fst e \<noteq> pkg) rest = rest"
      by (auto intro!: filter_True)
    with True w "2.prems"(3) show ?thesis by auto
  next
    case False
    with "2.prems" have "(pkg, v) \<in> set rest" and "distinct (map fst rest)" by auto
    with 2 False show ?thesis by (auto split: option.splits)
  qed
qed

text \<open>
  Claim C10. A value is a sentinel by its prefix \<^verbatim>\<open>via \<close> alone. A package whose value
  starts with \<^verbatim>\<open>via \<close>, or is \<^verbatim>\<open>None\<close>, is not among the versions compared and not among
  the mismatches, and the check prints and returns what it does without that package:
  a version that happens to start with \<^verbatim>\<open>via \<close> is skipped, not compared.
\<close>

theorem sentinel_is_skipped:
  assumes "distinct (map fst pv)" and "(pkg, v) \<in> set pv"
    and "v = None \<or> (\<exists>s. v = Some s \<and> startswith ''via '' s)"
  shows "pkg \<notin> fst ` set (actual_versions pv)
         \<and> pkg \<notin> fst ` set (mismatches sys pv)
         \<and> check_alignment lib sys pv = check_alignment lib sys (filter (\<lambda>e. fst e \<noteq> pkg) pv)"
proof (intro conjI)
  show a: "pkg \<notin> fst ` set (actual_versions pv)"
  proof
    assume "pkg \<in> fst ` set (actual_versions pv)"
    then obtain s where "(pkg, s) \<in> set (actual_versions pv)" by auto
    then have in_pv: "(pkg, Some s) \<in> set pv" and lit: "\<not> startswith ''via '' s"
      by (simp_all add: actual_versions_iff)
    from assms(1) assms(2) in_pv have "v = Some s"
      by (rule eq_key_imp_eq_value)
    with assms(3) lit show False by auto
  qed
  have "fst ` set (mismatches sys pv) \<subseteq> fst ` set (actual_versions pv)"
    unfolding mismatches_def by (rule fst_collect_mismatches)
  with a show "pkg \<notin> fst ` set (mismatches sys pv)" by blast
  show "check_alignment lib sys pv = check_alignment lib sys (filter (\<lambda>e. fst e \<noteq> pkg) pv)"
    using actual_versions_skip [OF assms] by (simp add: check_alignment_def)
qed

theorem sentinel_is_skipped_witness:
  "distinct (map fst [(''rasterio'', Some ''3.8.0''), (''odd'', Some ''via 3.7.0'')])
   \<and> (''odd'', Some ''via 3.7.0'') \<in> set [(''rasterio'', Some ''3.8.0''), (''odd'', Some ''via 3.7.0'')]
   \<and> startswith ''via '' ''via 3.7.0''
   \<and> ''odd'' \<notin> fst ` set (mismatches (Some ''3.8.0'') [(''rasterio'', Some ''3.8.0''), (''odd'', Some ''via 3.7.0'')])
   \<and> snd (check_alignment ''GDAL'' (Some ''3.8.0'') [(''rasterio'', Some ''3.8.0''), (''odd'', Some ''via 3.7.0'')])"
proof -
  let ?pv = "[(''rasterio'', Some ''3.8.0''), (''odd'', Some ''via 3.7.0'')]"
  have h1: "distinct (map fst ?pv)" by simp
  have h2: "(''odd'', Some ''via 3.7.0'') \<in> set ?pv" by simp
  have h3: "startswith ''via '' ''via 3.7.0''" by (simp add: startswith_def)
  then have h3': "Some ''via 3.7.0'' = None \<or> (\<exists>s. Some ''via 3.7.0'' = Some s \<and> startswith ''via '' s)"
    by simp
  have f: "filter (\<lambda>e. fst e \<noteq> ''odd'') ?pv = [(''rasterio'', Some ''3.8.0'')]" by simp
  have ok: "snd (check_alignment ''GDAL'' (Some ''3.8.0'') [(''rasterio'', Some ''3.8.0'')])"
    by code_simp
  from sentinel_is_skipped [OF h1 h2 h3', of "Some ''3.8.0''" "''GDAL''"] f ok h1 h2 h3
  show ?thesis by simp
qed


section \<open>Properties of the exit status\<close>

lemma check_alignment_fails_iff:
  "\<not> snd (check_alignment lib sys pv) \<longleftrightarrow>
     (\<exists>pkg s. (pkg, Some s) \<in> set pv \<and> \<not> startswith ''via '' s
        \<and> normalize_version (Some s) \<noteq> normalize_version sys)"
  by (simp add: check_alignment_snd mismatches_empty_iff)

lemma str_values_tuple:
  "(pkg, Tuple t) \<in> set pv \<Longrightarrow> \<exists>e. str_values pv = Inl e"
proof (induction pv rule: str_values.induct)
  case 1
  then show ?case by simp
next
  case (2 q v rest)
  then show ?case by (cases v) (auto split: sum.splits)
qed

text \<open>
  A tuple stored for GDAL always ends the process with status 1 and an exception that
  nothing caught: a tuple that is not empty while its table row is formatted (or an
  earlier row raised), the empty tuple in the first check.
\<close>

lemma script_end_tuple:
  assumes "(pkg, vs) \<in> set rs" and "GDAL vs = Tuple t"
  shows "exit_status (script_end g p e rs) = 1 \<and> uncaught (script_end g p e rs) \<noteq> None"
proof (cases "print_rows rs")
  case (Pair rows r)
  show ?thesis
  proof (cases r)
    case (Some ex)
    with Pair show ?thesis by (simp add: script_end_def)
  next
    case None
    from assms have "(pkg, Tuple t) \<in> set (gdal_versions rs)"
      by (force simp: gdal_versions_def)
    then obtain ex where "str_values (gdal_versions rs) = Inl ex"
      using str_values_tuple by blast
    then have "check_alignment_obj ''GDAL'' g (gdal_versions rs) = Inl ex"
      by (simp add: check_alignment_obj_def)
    with Pair None show ?thesis by (simp add: script_end_def)
  qed
qed

text \<open>
  When no exception is raised, the three checks ran on dicts of \<^verbatim>\<open>str\<close> or \<^verbatim>\<open>None\<close> values
  and the status is 0 exactly when the three returned \<^verbatim>\<open>True\<close>.
\<close>

lemma script_end_checked:
  assumes "uncaught (script_end g p e rs) = None"
  shows "\<exists>gd pd ed.
           str_values (gdal_versions rs) = Inr gd
           \<and> str_values (proj_versions rs) = Inr pd
           \<and> str_values (geos_versions rs) = Inr ed
           \<and> exit_status (script_end g p e rs) =
               (if snd (check_alignment ''GDAL'' g gd) \<and> snd (check_alignment ''PROJ'' p pd)
                   \<and> snd (check_alignment ''GEOS'' e ed)
                then 0 else 1)"
proof -
  obtain rows r where pr: "print_rows rs = (rows, r)"
    by (cases "print_rows rs")
  have r: "r = None"
    using assms pr by (cases r) (simp_all add: script_end_def)
  obtain gd where gd: "str_values (gdal_versions rs) = Inr gd"
    using assms pr r
    by (cases "str_values (gdal_versions rs)")
       (simp_all add: script_end_def check_alignment_obj_def)
  obtain pd where pd: "str_values (proj_versions rs) = Inr pd"
    using assms pr r gd
    by (cases "str_values (proj_versions rs)")
       (simp_all add: script_end_def check_alignment_obj_def split: prod.splits)
  obtain ed where ed: "str_values (geos_versions rs) = Inr ed"
    using assms pr r gd pd
    by (cases "str_values (geos_versions rs)")
       (simp_all add: script_end_def check_alignment_obj_def split: prod.splits)
  have "exit_status (script_end g p e rs) =
               (if snd (check_alignment ''GDAL'' g gd) \<and> snd (check_alignment ''PROJ'' p pd)
                   \<and> snd (check_alignment ''GEOS'' e ed)
                then 0 else 1)"
    using pr r gd pd ed
    by (simp add: script_end_def check_alignment_obj_def split: prod.splits)
  with gd pd ed show ?thesis by blast
qed

text \<open>
  Claim C2. The process exits with status 0 exactly when the three libraries pass the
  alignment check (also when a library has nothing to compare) and with status 1
  otherwise, and a mismatch is the only cause of a status other than 0. The code misses
  this where a package reports something that is not a \<^verbatim>\<open>str\<close>: with pyogrio's
  \<^verbatim>\<open>__gdal_version__\<close>, the tuple \<^verbatim>\<open>(3, 8, 0)\<close>, as the only entry, formatting the table row
  raises \<^verbatim>\<open>TypeError\<close>, no check runs, no mismatch is found and the status is 1. With the
  string \<^verbatim>\<open>3.8.0\<close> in its place the same run prints the row, passes the three checks and
  ends with status 0.
\<close>

theorem script_end_uncaught_exit:
  "script_end (Some ''3.8.0'') None None
     [(''pyogrio'', \<lparr>GDAL = Tuple [3, 8, 0], PROJ = NoneObj, GEOS = NoneObj\<rparr>)]
     = \<lparr>printed = [], uncaught = Some TypeError, exit_status = 1\<rparr>
   \<and> script_end (Some ''3.8.0'') None None
     [(''pyogrio'', \<lparr>GDAL = Str ''3.8.0'', PROJ = NoneObj, GEOS = NoneObj\<rparr>)]
     = \<lparr>printed = [''pyogrio         3.8.0                -            -           '',
                    ''GDAL: OK (all packages match system 3.8.0)'',
                    ''PROJ: No packages report version directly'',
                    ''GEOS: No packages report version directly''],
         uncaught = None, exit_status = 0\<rparr>"
  by code_simp


section \<open>Properties of the system version probe\<close>

lemma py_strip_split:
  "dropWhile py_isspace s =
     py_strip s @ rev (takeWhile py_isspace (rev (dropWhile py_isspace s)))"
proof -
  let ?d = "dropWhile py_isspace s"
  have "py_strip s @ rev (takeWhile py_isspace (rev ?d))
          = rev (takeWhile py_isspace (rev ?d) @ dropWhile py_isspace (rev ?d))"
    unfolding py_strip_def by (simp only: rev_append)
  also have "\<dots> = rev (rev ?d)"
    by (simp only: takeWhile_dropWhile_id)
  also have "\<dots> = ?d"
    by (simp only: rev_rev_ident)
  finally show ?thesis by (rule sym)
qed

lemma py_strip_decomp:
  "\<exists>a b. s = a @ py_strip s @ b \<and> (\<forall>c \<in> set a. py_isspace c) \<and> (\<forall>c \<in> set b. py_isspace c)"
proof -
  let ?d = "dropWhile py_isspace s"
  let ?a = "takeWhile py_isspace s"
  let ?b = "rev (takeWhile py_isspace (rev ?d))"
  have "s = ?a @ ?d" by simp
  also have "?d = py_strip s @ ?b" by (rule py_strip_split)
  finally have "s = ?a @ py_strip s @ ?b" .
  moreover have "\<forall>c \<in> set ?a. py_isspace c"
    by (auto dest: set_takeWhileD)
  moreover have "\<forall>c \<in> set ?b. py_isspace c"
    by (auto dest: set_takeWhileD)
  ultimately show ?thesis by blast
qed

lemma py_strip_ends:
  assumes "py_strip s \<noteq> []"
  shows "\<not> py_isspace (hd (py_strip s)) \<and> \<not> py_isspace (last (py_strip s))"
proof
  let ?d = "dropWhile py_isspace s"
  let ?e = "dropWhile py_isspace (rev ?d)"
  from assms have e: "?e \<noteq> []" by (simp add: py_strip_def)
  then have "\<not> py_isspace (hd ?e)" by (rule hd_dropWhile)
  moreover have "last (py_strip s) = hd ?e"
    using e by (simp add: py_strip_def last_rev)
  ultimately show "\<not> py_isspace (last (py_strip s))" by simp
  have d: "?d = py_strip s @ rev (takeWhile py_isspace (rev ?d))"
    by (rule py_strip_split)
  with assms have "?d \<noteq> []" by (metis append_is_Nil_conv)
  then have "\<not> py_isspace (hd ?d)" by (rule hd_dropWhile)
  moreover from d assms have "hd ?d = hd (py_strip s)"
    by (metis hd_append2)
  ultimately show "\<not> py_isspace (hd (py_strip s))" by simp
qed

text \<open>
  Claim C6. The probe returns a value whatever the host does with the command, and no
  exception leaves it. When the command completes with return code 0 the value is the
  captured standard output without the white space at its two ends; when the command
  completes with another return code, or running it raises, the value is \<^verbatim>\<open>None\<close>.
\<close>

theorem get_system_version_never_raises:
  "(\<exists>r. get_system_version os cmd = Inr r)
   \<and> (\<forall>p. os cmd = Inr p \<and> returncode p = 0 \<longrightarrow>
         get_system_version os cmd = Inr (Some (py_strip (stdout p)))
         \<and> (\<exists>a b. stdout p = a @ py_strip (stdout p) @ b
                \<and> (\<forall>c \<in> set a. py_isspace c) \<and> (\<forall>c \<in> set b. py_isspace c))
         \<and> (py_strip (stdout p) = []
              \<or> \<not> py_isspace (hd (py_strip (stdout p))) \<and> \<not> py_isspace (last (py_strip (stdout p)))))
   \<and> (\<forall>p. os cmd = Inr p \<and> returncode p \<noteq> 0 \<longrightarrow> get_system_version os cmd = Inr None)
   \<and> (\<forall>e. os cmd = Inl e \<longrightarrow> get_system_version os cmd = Inr None)"
proof (intro conjI allI impI)
  show "\<exists>r. get_system_version os cmd = Inr r"
    by (simp add: get_system_version_def split: sum.splits)
next
  fix p
  assume "os cmd = Inr p \<and> returncode p = 0"
  then show "get_system_version os cmd = Inr (Some (py_strip (stdout p)))"
    by (simp add: get_system_version_def subprocess_run_def)
  show "\<exists>a b. stdout p = a @ py_strip (stdout p) @ b
                \<and> (\<forall>c \<in> set a. py_isspace c) \<and> (\<forall>c \<in> set b. py_isspace c)"
    by (rule py_strip_decomp)
  show "py_strip (stdout p) = []
              \<or> \<not> py_isspace (hd (py_strip (stdout p))) \<and> \<not> py_isspace (last (py_strip (stdout p)))"
    using py_strip_ends [of "stdout p"] by blast
next
  fix p
  assume "os cmd = Inr p \<and> returncode p \<noteq> 0"
  then show "get_system_version os cmd = Inr None"
    by (simp add: get_system_version_def subprocess_run_def)
next
  fix e
  assume "os cmd = Inl e"
  then show "get_system_version os cmd = Inr None"
    by (simp add: get_system_version_def subprocess_run_def)
qed

theorem get_system_version_never_raises_witness:
  "demo_host [''gdal-config'', ''--version''] = Inr \<lparr>returncode = 0, stdout = ''3.8.0'' @ [LF]\<rparr>
   \<and> get_system_version demo_host [''gdal-config'', ''--version''] = Inr (Some ''3.8.0'')
   \<and> demo_host [''pkg-config'', ''--modversion'', ''proj''] = Inr \<lparr>returncode = 1, stdout = ''''\<rparr>
   \<and> get_system_version demo_host [''pkg-config'', ''--modversion'', ''proj''] = Inr None
   \<and> demo_host [''geos-config'', ''--version''] = Inl FileNotFoundError
   \<and> get_system_version demo_host [''geos-config'', ''--version''] = Inr None"
proof -
  have h1: "demo_host [''gdal-config'', ''--version''] = Inr \<lparr>returncode = 0, stdout = ''3.8.0'' @ [LF]\<rparr>"
    by (simp add: demo_host_def)
  have h2: "demo_host [''pkg-config'', ''--modversion'', ''proj''] = Inr \<lparr>returncode = 1, stdout = ''''\<rparr>"
    by (simp add: demo_host_def)
  have h3: "demo_host [''geos-config'', ''--version''] = Inl FileNotFoundError"
    by (simp add: demo_host_def)
  have s: "py_strip (''3.8.0'' @ [LF]) = ''3.8.0''"
    by code_simp
  have r1: "get_system_version demo_host [''gdal-config'', ''--version''] = Inr (Some ''3.8.0'')"
    using get_system_version_never_raises [of demo_host "[''gdal-config'', ''--version'']"] h1 s
    by simp
  have r2: "get_system_version demo_host [''pkg-config'', ''--modversion'', ''proj''] = Inr None"
    using get_system_version_never_raises [of demo_host "[''pkg-config'', ''--modversion'', ''proj'']"] h2
    by simp
  have r3: "get_system_version demo_host [''geos-config'', ''--version''] = Inr None"
    using get_system_version_never_raises [of demo_host "[''geos-config'', ''--version'']"] h3
    by simp
  from h1 h2 h3 r1 r2 r3 show ?thesis by blast
qed


section \<open>Properties of the parser\<close>

lemma py_split_not_Nil: "py_split sep s \<noteq> []"
  by (induction s) (auto split: list.splits)

lemma hd_py_split: "hd (py_split sep s) = takeWhile (\<lambda>c. c \<noteq> sep) s"
  by (induction s) (auto split: list.splits simp: py_split_not_Nil)

lemma py_split_no_sep: "sep \<notin> set s \<Longrightarrow> py_split sep s = [s]"
  by (induction s) auto

lemma tl_py_split:
  "sep \<in> set s \<Longrightarrow> tl (py_split sep s) = py_split sep (drop 1 (dropWhile (\<lambda>c. c \<noteq> sep) s))"
proof (induction s)
  case Nil
  then show ?case by simp
next
  case (Cons c t)
  show ?case
  proof (cases "c = sep")
    case True
    then show ?thesis by simp
  next
    case False
    with Cons.prems have "sep \<in> set t" by simp
    then have "tl (py_split sep t) = py_split sep (drop 1 (dropWhile (\<lambda>c. c \<noteq> sep) t))"
      by (rule Cons.IH)
    with False show ?thesis
      by (cases "py_split sep t") (simp_all add: py_split_not_Nil)
  qed
qed

lemma length_py_split: "2 \<le> length (py_split sep s) \<longleftrightarrow> sep \<in> set s"
proof (cases "sep \<in> set s")
  case True
  let ?r = "drop 1 (dropWhile (\<lambda>c. c \<noteq> sep) s)"
  have "length (py_split sep s) = Suc (length (tl (py_split sep s)))"
    using py_split_not_Nil [of sep s] by (cases "py_split sep s") simp_all
  moreover have "tl (py_split sep s) = py_split sep ?r"
    using True by (rule tl_py_split)
  moreover have "Suc 0 \<le> length (py_split sep ?r)"
    using py_split_not_Nil [of sep ?r] by (cases "py_split sep ?r") simp_all
  ultimately show ?thesis using True by simp
next
  case False
  then show ?thesis by (simp add: py_split_no_sep)
qed

lemma second_part:
  assumes "CHR '':'' \<in> set line"
  shows "py_split (CHR '':'') line ! Suc 0 = between_colons line"
proof -
  let ?parts = "py_split (CHR '':'') line"
  have t: "tl ?parts = py_split (CHR '':'') (after_first_colon line)"
    unfolding after_first_colon_def using assms by (rule tl_py_split)
  have ne: "?parts \<noteq> []" by (rule py_split_not_Nil)
  have "?parts ! Suc 0 = hd (tl ?parts)"
  proof (cases ?parts)
    case Nil
    with ne show ?thesis by simp
  next
    case (Cons p ps)
    with t py_split_not_Nil [of "CHR '':''" "after_first_colon line"] have "ps \<noteq> []" by simp
    with Cons show ?thesis by (simp add: hd_conv_nth)
  qed
  also have "\<dots> = between_colons line"
    by (simp add: t hd_py_split between_colons_def)
  finally show ?thesis .
qed

lemma startswith_GDAL_not_PROJ: "startswith ''GDAL'' s \<Longrightarrow> \<not> startswith ''PROJ'' s"
  by (auto simp: startswith_def)

lemma startswith_GDAL_not_GEOS: "startswith ''GDAL'' s \<Longrightarrow> \<not> startswith ''GEOS'' s"
  by (auto simp: startswith_def)

lemma startswith_PROJ_not_GEOS: "startswith ''PROJ'' s \<Longrightarrow> \<not> startswith ''GEOS'' s"
  by (auto simp: startswith_def)

lemma gp_line_gdal:
  "gp_gdal (gp_line st line) =
     (if startswith ''GDAL'' (py_strip line) \<and> CHR '':'' \<in> set line
      then Some (py_strip (between_colons line)) else gp_gdal st)"
  by (simp add: gp_line_def Let_def length_py_split second_part)

lemma gp_line_proj:
  "gp_proj (gp_line st line) =
     (if startswith ''PROJ'' (py_strip line) \<and> CHR '':'' \<in> set line
      then Some (py_strip (between_colons line)) else gp_proj st)"
  using startswith_GDAL_not_PROJ [of "py_strip line"]
  by (auto simp: gp_line_def Let_def length_py_split second_part)

lemma gp_line_geos:
  "gp_geos (gp_line st line) =
     (if startswith ''GEOS'' (py_strip line) \<and> \<not> py_in ''lib'' (py_lower line)
         \<and> CHR '':'' \<in> set line
      then Some (py_strip (between_colons line)) else gp_geos st)"
  using startswith_GDAL_not_GEOS [of "py_strip line"] startswith_PROJ_not_GEOS [of "py_strip line"]
  by (auto simp: gp_line_def Let_def length_py_split second_part)

lemma foldl_last_match:
  assumes step: "\<And>st l. field (f st l) = (if P l then Some (val l) else field st)"
  shows "field (foldl f st ls) =
           (if filter P ls = [] then field st else Some (val (last (filter P ls))))"
proof (induction ls rule: rev_induct)
  case Nil
  then show ?case by simp
next
  case (snoc l ls)
  show ?case
  proof (cases "P l")
    case True
    then show ?thesis by (simp add: step)
  next
    case False
    with snoc show ?thesis by (simp add: step)
  qed
qed

text \<open>
  On a line with a second colon the value is not the rest of the line behind the first
  colon: \<^verbatim>\<open>parts[1]\<close> ends at the second colon.
\<close>

theorem parse_show_versions_remainder_counterexample:
  "gp_gdal (parse_show_versions ''GDAL data dir: C:/OSGeo4W/share/gdal'') = Some ''C''
   \<and> py_strip (after_first_colon ''GDAL data dir: C:/OSGeo4W/share/gdal'') = ''C:/OSGeo4W/share/gdal''"
  by code_simp

text \<open>
  Claim C7 (amended). The parser goes through the report line by line. A line counts for
  GDAL, PROJ or GEOS when its stripped form begins with that name and it holds a colon; for
  GEOS a line with \<^verbatim>\<open>lib\<close> in its lower-case form does not count. The value of a library is
  taken from the last line that counts for it (\<^verbatim>\<open>None\<close> when there is none): the stripped
  text between the first colon of the line and the next colon, which is the whole rest
  of the line when there is no second colon.
\<close>

theorem parse_show_versions_fields:
  "gp_gdal (parse_show_versions gp_info) =
     (let ls = filter (\<lambda>l. startswith ''GDAL'' (py_strip l) \<and> CHR '':'' \<in> set l)
                 (py_split LF gp_info)
      in if ls = [] then None else Some (py_strip (between_colons (last ls))))
   \<and> gp_proj (parse_show_versions gp_info) =
     (let ls = filter (\<lambda>l. startswith ''PROJ'' (py_strip l) \<and> CHR '':'' \<in> set l)
                 (py_split LF gp_info)
      in if ls = [] then None else Some (py_strip (between_colons (last ls))))
   \<and> gp_geos (parse_show_versions gp_info) =
     (let ls = filter (\<lambda>l. startswith ''GEOS'' (py_strip l) \<and> \<not> py_in ''lib'' (py_lower l)
                            \<and> CHR '':'' \<in> set l)
                 (py_split LF gp_info)
      in if ls = [] then None else Some (py_strip (between_colons (last ls))))
   \<and> (\<forall>line. CHR '':'' \<notin> set (after_first_colon line)
         \<longrightarrow> between_colons line = after_first_colon line)"
proof (intro conjI allI impI)
  show "gp_gdal (parse_show_versions gp_info) =
     (let ls = filter (\<lambda>l. startswith ''GDAL'' (py_strip l) \<and> CHR '':'' \<in> set l)
                 (py_split LF gp_info)
      in if ls = [] then None else Some (py_strip (between_colons (last ls))))"
    unfolding parse_show_versions_def Let_def
    using foldl_last_match [of gp_gdal gp_line, OF gp_line_gdal] by simp
  show "gp_proj (parse_show_versions gp_info) =
     (let ls = filter (\<lambda>l. startswith ''PROJ'' (py_strip l) \<and> CHR '':'' \<in> set l)
                 (py_split LF gp_info)
      in if ls = [] then None else Some (py_strip (between_colons (last ls))))"
    unfolding parse_show_versions_def Let_def
    using foldl_last_match [of gp_proj gp_line, OF gp_line_proj] by simp
  show "gp_geos (parse_show_versions gp_info) =
     (let ls = filter (\<lambda>l. startswith ''GEOS'' (py_strip l) \<and> \<not> py_in ''lib'' (py_lower l)
                            \<and> CHR '':'' \<in> set l)
                 (py_split LF gp_info)
      in if ls = [] then None else Some (py_strip (between_colons (last ls))))"
    unfolding parse_show_versions_def Let_def
    using foldl_last_match [of gp_geos gp_line, OF gp_line_geos] by simp
next
  fix line
  assume "CHR '':'' \<notin> set (after_first_colon line)"
  then show "between_colons line = after_first_colon line"
    by (auto simp: between_colons_def)
qed

theorem parse_show_versions_fields_witness:
  "CHR '':'' \<notin> set (after_first_colon ''GDAL       : 3.6.2'')
   \<and> between_colons ''GDAL       : 3.6.2'' = after_first_colon ''GDAL       : 3.6.2''
   \<and> parse_show_versions
        (''GEOS       : 3.11.1'' @ [LF] @ ''GEOS lib   : None'' @ [LF] @
         ''GDAL       : 3.6.2'' @ [LF] @ ''PROJ       : 9.1.1'')
       = \<lparr>gp_gdal = Some ''3.6.2'', gp_proj = Some ''9.1.1'', gp_geos = Some ''3.11.1''\<rparr>"
proof -
  have h: "CHR '':'' \<notin> set (after_first_colon ''GDAL       : 3.6.2'')"
    by code_simp
  from parse_show_versions_fields
         [of "''GEOS       : 3.11.1'' @ [LF] @ ''GEOS lib   : None'' @ [LF] @
              ''GDAL       : 3.6.2'' @ [LF] @ ''PROJ       : 9.1.1''"] h
  have b: "between_colons ''GDAL       : 3.6.2'' = after_first_colon ''GDAL       : 3.6.2''"
    by blast
  have p: "parse_show_versions
        (''GEOS       : 3.11.1'' @ [LF] @ ''GEOS lib   : None'' @ [LF] @
         ''GDAL       : 3.6.2'' @ [LF] @ ''PROJ       : 9.1.1'')
       = \<lparr>gp_gdal = Some ''3.6.2'', gp_proj = Some ''9.1.1'', gp_geos = Some ''3.11.1''\<rparr>"
    by code_simp
  from h b p show ?thesis by (intro conjI)
qed

end
